theory Spec2Isabelle
  imports Complex_Main
begin

section \<open>Dates\<close>

text \<open>
  A JavaScript \<open>Date\<close> is its \<open>getTime()\<close> value: milliseconds since the epoch, an
  integer. A date key \<open>YYYY-MM-DD\<close> stands for one calendar day and is modelled by the
  number of that day (days since 1970-01-01); the rendering of a day as text is injective
  for four-digit years, so \<open>===\<close> on keys is equality of day numbers.
\<close>

type_synonym time = int
type_synonym dateKey = int

definition msPerDay :: int where
  "msPerDay = 1000 * 60 * 60 * 24"

definition msPerHour :: int where
  "msPerHour = 1000 * 60 * 60"

text \<open>
  The clock the code reads. \<open>now\<close> is what \<open>new Date()\<close> returns. The local time zone
  has a standard offset \<open>tzOffset\<close> (local time minus UTC, in milliseconds) and daylight
  saving time of one hour: \<open>dst d\<close> says whether it is in force at 00:00 of the local
  calendar day \<open>d\<close>. When that differs between a day and the next, the clocks change on
  the first of the two at 02:00 wall-clock time (the rule of the United States and
  Canada), so that this day has 23 or 25 hours. \<open>oneYearBefore d\<close> is the number of the
  calendar day with the same month and day of month one year before day \<open>d\<close> (the
  Gregorian arithmetic of \<open>new Date(y - 1, m, d)\<close>, which belongs to the JavaScript
  runtime).
\<close>

record clock =
  now :: time
  tzOffset :: int
  dst :: "int \<Rightarrow> bool"
  oneYearBefore :: "int \<Rightarrow> int"

definition midnightOffset :: "clock \<Rightarrow> int \<Rightarrow> int" where
  \<comment> \<open>the offset from UTC in force at 00:00 of local day \<open>d\<close>\<close>
  "midnightOffset c d = tzOffset c + (if dst c d then msPerHour else 0)"

definition ofLocalDay :: "clock \<Rightarrow> int \<Rightarrow> time" where
  \<comment> \<open>\<open>new Date(year, month, day)\<close>: local midnight of a calendar day\<close>
  "ofLocalDay c d = d * msPerDay - midnightOffset c d"

definition localDay :: "clock \<Rightarrow> time \<Rightarrow> int" where
  \<comment> \<open>the calendar day read by \<open>getFullYear()\<close>, \<open>getMonth()\<close>, \<open>getDate()\<close>: the day
     whose local midnight is the last one not after \<open>t\<close>; it is the day in standard time
     or the one after it\<close>
  "localDay c t =
     (let q = (t + tzOffset c) div msPerDay
      in if ofLocalDay c (q + 1) \<le> t then q + 1 else q)"

definition switchInstant :: "clock \<Rightarrow> int \<Rightarrow> time" where
  \<comment> \<open>02:00 wall-clock time of day \<open>d\<close>, read with the offset of its midnight\<close>
  "switchInstant c d = d * msPerDay + 2 * msPerHour - midnightOffset c d"

definition offsetAt :: "clock \<Rightarrow> time \<Rightarrow> int" where
  \<comment> \<open>the offset from UTC in force at the instant \<open>t\<close>\<close>
  "offsetAt c t =
     (if switchInstant c (localDay c t) \<le> t then midnightOffset c (localDay c t + 1)
      else midnightOffset c (localDay c t))"

definition timeWithinDay :: "clock \<Rightarrow> time \<Rightarrow> int" where
  \<comment> \<open>the wall-clock time of \<open>t\<close>, in milliseconds since local midnight\<close>
  "timeWithinDay c t = t + offsetAt c t - localDay c t * msPerDay"

definition fromLocal :: "clock \<Rightarrow> int \<Rightarrow> int \<Rightarrow> time" where
  \<comment> \<open>the instant of wall-clock time \<open>w\<close> on local day \<open>d\<close>; a wall-clock time that the
     change of the clocks skips or repeats is read with the offset before the change\<close>
  "fromLocal c d w =
     d * msPerDay + w
       - (if 2 * msPerHour + max 0 (midnightOffset c (d + 1) - midnightOffset c d) \<le> w
          then midnightOffset c (d + 1) else midnightOffset c d)"

definition startOfDay :: "clock \<Rightarrow> time \<Rightarrow> time" where
  \<comment> \<open>\<open>new Date(t.getFullYear(), t.getMonth(), t.getDate())\<close>\<close>
  "startOfDay c t = ofLocalDay c (localDay c t)"

definition addDays :: "clock \<Rightarrow> time \<Rightarrow> int \<Rightarrow> time" where
  \<comment> \<open>\<open>t.setDate(t.getDate() + n)\<close>: the same wall-clock time \<open>n\<close> calendar days on\<close>
  "addDays c t n = fromLocal c (localDay c t + n) (timeWithinDay c t)"

definition getDateKey :: "clock \<Rightarrow> time \<Rightarrow> dateKey" where
  \<comment> \<open>year, month and day of the local calendar day, padded and joined\<close>
  "getDateKey c t = localDay c t"

definition getTodayDateKey :: "clock \<Rightarrow> dateKey" where
  "getTodayDateKey c = getDateKey c (now c)"

definition parseDateKey :: "dateKey \<Rightarrow> time" where
  \<comment> \<open>\<open>new Date('YYYY-MM-DD')\<close>: a date-only string is read as midnight UTC\<close>
  "parseDateKey k = k * msPerDay"


section \<open>Habits and logs\<close>

record habit =
  habitId :: string
  habitType :: string
  archived :: bool
  createdAt :: "time option"

record habitWithStatus = habit +
  isCompletedToday :: bool
  todayLogId :: "string option"

record log =
  logId :: string
  logHabitId :: string
  dateKey :: dateKey
  completedAt :: time

record details =
  logs :: "log list"
  currentStreak :: int
  consistencyScore :: int
  totalCompletions :: int

definition isNegative :: "'a habit_scheme option \<Rightarrow> bool" where
  \<comment> \<open>\<open>habit?.type === 'negative'\<close>\<close>
  "isNegative h = (case h of None \<Rightarrow> False | Some x \<Rightarrow> habitType x = ''negative'')"

definition createdAtStartOfDay :: "clock \<Rightarrow> 'a habit_scheme option \<Rightarrow> time option" where
  "createdAtStartOfDay c h =
     (case h of None \<Rightarrow> None
      | Some x \<Rightarrow> (case createdAt x of None \<Rightarrow> None | Some t \<Rightarrow> Some (startOfDay c t)))"

definition hasLog :: "log list \<Rightarrow> dateKey \<Rightarrow> bool" where
  \<comment> \<open>\<open>logs.some(l => l.dateKey === key)\<close>\<close>
  "hasLog ls k = (k \<in> set (map dateKey ls))"

definition beforeCreation :: "time option \<Rightarrow> time \<Rightarrow> bool" where
  \<comment> \<open>\<open>createdAtStartOfDay && date < createdAtStartOfDay\<close>\<close>
  "beforeCreation cs t = (case cs of None \<Rightarrow> False | Some s \<Rightarrow> t < s)"

section \<open>Habit detail screen: current and longest streak\<close>

text \<open>
  From \<open>app/settings.tsx\<close>, the memoised values \<open>calculateStreak\<close> and
  \<open>longestStreak\<close> of \<open>HabitDetailScreen\<close>. Each \<open>for\<close> loop is a recursive function
  on the loop counter and the variables the loop updates; a \<open>break\<close> returns them.
  Numbers are integers; \<open>div\<close> rounds down, as \<open>Math.floor\<close> does on the quotient.
  Every \<open>new Date()\<close> of one computation reads the same instant \<open>now\<close>.
\<close>

function negativeLoop :: "clock \<Rightarrow> time option \<Rightarrow> log list \<Rightarrow> int \<Rightarrow> int \<Rightarrow> int" where
  "negativeLoop c cs ls i streak =
     (if i \<le> 365 then
        (if beforeCreation cs (addDays c (now c) (- i)) then streak
         else if hasLog ls (getDateKey c (addDays c (now c) (- i))) then streak
         else negativeLoop c cs ls (i + 1) (streak + 1))
      else streak)"
  by pat_completeness auto
termination
  by (relation "measure (\<lambda>(c, cs, ls, i, streak). nat (366 - i))") auto

declare negativeLoop.simps [simp del]

function positiveLoop :: "clock \<Rightarrow> time option \<Rightarrow> log list \<Rightarrow> int \<Rightarrow> int \<Rightarrow> int" where
  "positiveLoop c cs ls i streak =
     (if i < 365 then
        (if beforeCreation cs (addDays c (now c) (- i)) then streak
         else if hasLog ls (getDateKey c (addDays c (now c) (- i)))
           then positiveLoop c cs ls (i + 1) (streak + 1)
         else if i > 0 then streak
         else positiveLoop c cs ls (i + 1) streak)
      else streak)"
  by pat_completeness auto
termination
  by (relation "measure (\<lambda>(c, cs, ls, i, streak). nat (365 - i))") auto

declare positiveLoop.simps [simp del]

definition calculateStreak :: "clock \<Rightarrow> 'a habit_scheme option \<Rightarrow> details option \<Rightarrow> int" where
  "calculateStreak c h d =
     (case d of None \<Rightarrow> 0
      | Some dt \<Rightarrow>
         (case h of None \<Rightarrow> 0
          | Some x \<Rightarrow>
             if isNegative h then negativeLoop c (createdAtStartOfDay c h) (logs dt) 0 0
             else positiveLoop c (createdAtStartOfDay c h) (logs dt) 0 0))"

function longestLoop ::
  "clock \<Rightarrow> bool \<Rightarrow> log list \<Rightarrow> time \<Rightarrow> int \<Rightarrow> int \<Rightarrow> int \<Rightarrow> int \<Rightarrow> int" where
  "longestLoop c neg ls startDate daysDiff i maxStreak cur =
     (if i \<le> daysDiff then
        (if neg then
           (if \<not> hasLog ls (getDateKey c (addDays c startDate i))
            then longestLoop c neg ls startDate daysDiff (i + 1) (max maxStreak (cur + 1)) (cur + 1)
            else longestLoop c neg ls startDate daysDiff (i + 1) maxStreak 0)
         else
           (if hasLog ls (getDateKey c (addDays c startDate i))
            then longestLoop c neg ls startDate daysDiff (i + 1) (max maxStreak (cur + 1)) (cur + 1)
            else longestLoop c neg ls startDate daysDiff (i + 1) maxStreak 0))
      else maxStreak)"
  by pat_completeness auto
termination
  by (relation "measure (\<lambda>(c, neg, ls, startDate, daysDiff, i, m, cur). nat (daysDiff + 1 - i))") auto

declare longestLoop.simps [simp del]

definition longestStart :: "clock \<Rightarrow> 'a habit_scheme option \<Rightarrow> time" where
  \<comment> \<open>\<open>createdAtStartOfDay || new Date(today.getFullYear() - 1, today.getMonth(), today.getDate())\<close>\<close>
  "longestStart c h =
     (case createdAtStartOfDay c h of
        Some s \<Rightarrow> s
      | None \<Rightarrow> ofLocalDay c (oneYearBefore c (localDay c (now c))))"

definition longestStreak :: "clock \<Rightarrow> 'a habit_scheme option \<Rightarrow> details option \<Rightarrow> int" where
  "longestStreak c h d =
     (case d of None \<Rightarrow> 0
      | Some dt \<Rightarrow>
         (case h of None \<Rightarrow> 0
          | Some x \<Rightarrow>
             longestLoop c (isNegative h) (logs dt) (longestStart c h)
               ((now c - longestStart c h) div msPerDay) 0 0 0))"

section \<open>Habit detail screen: chart and calendar\<close>






section \<open>Habit store\<close>

text \<open>
  From \<open>src/stores/useHabitStore.ts\<close>. The state of the store is a record; an action
  takes the state (and the database of the native platform) and returns the new one.
  \<open>isWeb\<close> is the platform flag. Fields that no computed value reads (title, icon,
  colour, reminder time) are left out of the habit.
\<close>

datatype jsError = JsError string

fun message :: "jsError \<Rightarrow> string" where
  "message (JsError m) = m"

text \<open>
  The SQLite database of the native platform: either it cannot be reached, and every
  query throws, or it holds the two tables. A table is the list of its rows.
\<close>

record tables =
  habitsTable :: "habit list"
  logsTable :: "log list"

type_synonym database = "jsError + tables"

record store =
  habits :: "habitWithStatus list"
  isLoading :: bool
  error :: "string option"
  webHabits :: "habit list"
  webLogs :: "log list"
  version :: int

definition withStatus :: "habit \<Rightarrow> bool \<Rightarrow> string option \<Rightarrow> habitWithStatus" where
  \<comment> \<open>\<open>{ ...habit, isCompletedToday, todayLogId }\<close>\<close>
  "withStatus h done i =
     \<lparr> habitId = habitId h, habitType = habitType h, archived = archived h,
       createdAt = createdAt h, isCompletedToday = done, todayLogId = i \<rparr>"

definition webHabitsWithStatus :: "dateKey \<Rightarrow> habit list \<Rightarrow> log list \<Rightarrow> habitWithStatus list" where
  "webHabitsWithStatus todayKey hs ls =
     map (\<lambda>h. let todayLog = find (\<lambda>l. logHabitId l = habitId h \<and> dateKey l = todayKey) ls
              in withStatus h (todayLog \<noteq> None) (map_option logId todayLog))
       (filter (\<lambda>h. \<not> archived h) hs)"

definition nativeHabitsWithStatus :: "dateKey \<Rightarrow> tables \<Rightarrow> habitWithStatus list" where
  \<comment> \<open>\<open>new Map(todayLogs.map(...))\<close> keeps, for each habit, the last of today's logs\<close>
  "nativeHabitsWithStatus todayKey t =
     (let todayLogs = filter (\<lambda>l. dateKey l = todayKey) (logsTable t)
      in map (\<lambda>h. let entry = find (\<lambda>l. logHabitId l = habitId h) (rev todayLogs)
                  in withStatus h (entry \<noteq> None) (map_option logId entry))
           (filter (\<lambda>h. \<not> archived h) (habitsTable t)))"

definition loadHabits :: "clock \<Rightarrow> bool \<Rightarrow> store \<Rightarrow> database \<Rightarrow> store" where
  "loadHabits c isWeb st db =
     (if isWeb then
        st \<lparr> habits := webHabitsWithStatus (getTodayDateKey c) (webHabits st) (webLogs st),
             isLoading := False, error := None, version := version st + 1 \<rparr>
      else
        (case db of
           Inl e \<Rightarrow> st \<lparr> error := Some (message e), isLoading := False \<rparr>
         | Inr t \<Rightarrow>
             st \<lparr> habits := nativeHabitsWithStatus (getTodayDateKey c) t,
                  isLoading := False, error := None, version := version st + 1 \<rparr>))"

fun findIndex :: "('a \<Rightarrow> bool) \<Rightarrow> 'a list \<Rightarrow> int" where
  "findIndex P [] = - 1"
| "findIndex P (x # xs) =
     (if P x then 0 else (if findIndex P xs < 0 then - 1 else findIndex P xs + 1))"

definition splice1 :: "'a list \<Rightarrow> int \<Rightarrow> 'a list" where
  \<comment> \<open>\<open>xs.splice(i, 1)\<close> on a copy, for an index inside the list\<close>
  "splice1 xs i = take (nat i) xs @ drop (nat i + 1) xs"

definition insertLog :: "tables \<Rightarrow> log \<Rightarrow> jsError + tables" where
  \<comment> \<open>the log id is the primary key of the table\<close>
  "insertLog t l =
     (if logId l \<in> set (map logId (logsTable t)) then Inl (JsError ''UNIQUE constraint failed: logs.id'')
      else Inr (t \<lparr> logsTable := logsTable t @ [l] \<rparr>))"

definition toggleHabit ::
  "clock \<Rightarrow> bool \<Rightarrow> string \<Rightarrow> string \<Rightarrow> dateKey option \<Rightarrow> store \<times> database \<Rightarrow> store \<times> database" where
  \<comment> \<open>\<open>newId\<close> is the value \<open>generateId()\<close> returns if it is called\<close>
  "toggleHabit c isWeb newId hid dk sd =
     (let st = fst sd; db = snd sd;
          targetDateKey = (case dk of Some k \<Rightarrow> k | None \<Rightarrow> getTodayDateKey c);
          newLog = \<lparr> logId = newId, logHabitId = hid, dateKey = targetDateKey, completedAt = now c \<rparr>
      in if isWeb then
           (let existingLogIndex =
                  findIndex (\<lambda>l. logHabitId l = hid \<and> dateKey l = targetDateKey) (webLogs st);
                st' = (if existingLogIndex \<ge> 0
                       then st \<lparr> webLogs := splice1 (webLogs st) existingLogIndex \<rparr>
                       else st \<lparr> webLogs := webLogs st @ [newLog] \<rparr>)
            in (loadHabits c isWeb st' db, db))
         else
           (case db of
              Inl e \<Rightarrow> (st \<lparr> error := Some (message e) \<rparr>, db)
            | Inr t \<Rightarrow>
               (case filter (\<lambda>l. logHabitId l = hid \<and> dateKey l = targetDateKey) (logsTable t) of
                  x # xs \<Rightarrow>
                    (let db' = Inr (t \<lparr> logsTable := filter (\<lambda>l. logId l \<noteq> logId x) (logsTable t) \<rparr>)
                     in (loadHabits c isWeb st db', db'))
                | [] \<Rightarrow>
                    (case insertLog t newLog of
                       Inl e \<Rightarrow> (st \<lparr> error := Some (message e) \<rparr>, db)
                     | Inr t' \<Rightarrow> (loadHabits c isWeb st (Inr t'), Inr t')))))"

subsection \<open>getHabitDetails\<close>

function streakWalk :: "clock \<Rightarrow> log list \<Rightarrow> time \<Rightarrow> int \<Rightarrow> int" where
  "streakWalk c ls checkDate streak =
     (if hasLog ls (getDateKey c checkDate)
      then streakWalk c ls (addDays c checkDate (- 1)) (streak + 1)
      else streak)"
  by pat_completeness auto
termination
proof (relation "measure (\<lambda>(c, ls, checkDate, streak).
          length (filter (\<lambda>l. dateKey l \<le> getDateKey c checkDate) ls))")
  show "wf (measure (\<lambda>(c, ls, checkDate, streak).
          length (filter (\<lambda>l. dateKey l \<le> getDateKey c checkDate) ls)))"
    by simp
next
  fix c :: clock and ls :: "log list" and checkDate streak :: int
  assume h: "hasLog ls (getDateKey c checkDate)"
  have step_of: "\<bar>midnightOffset c d - midnightOffset c e\<bar> \<le> msPerHour" for d e
    by (simp add: midnightOffset_def msPerHour_def)
  have mono: "ofLocalDay c d \<le> ofLocalDay c e" if "d \<le> e" for d e
  proof (cases "d = e")
    case False
    then have "(d + 1) * msPerDay \<le> e * msPerDay"
      using that by (intro mult_right_mono) (auto simp add: msPerDay_def)
    then show ?thesis
      using step_of [of e d]
      by (simp add: ofLocalDay_def msPerDay_def msPerHour_def algebra_simps)
  qed simp
  have bounds: "ofLocalDay c (localDay c t) \<le> t \<and> t < ofLocalDay c (localDay c t + 1)" for t
  proof -
    let ?q = "(t + tzOffset c) div msPerDay"
    have "?q * msPerDay \<le> t + tzOffset c" and "t + tzOffset c < (?q + 1) * msPerDay"
      by (simp_all add: msPerDay_def)
    then have "ofLocalDay c ?q \<le> t" and "t < ofLocalDay c (?q + 2)"
      by (simp_all add: ofLocalDay_def midnightOffset_def msPerHour_def msPerDay_def)
    then show ?thesis
      by (simp add: localDay_def Let_def add.assoc)
  qed
  have unique: "localDay c t = d" if "ofLocalDay c d \<le> t" "t < ofLocalDay c (d + 1)" for t d
  proof (rule ccontr)
    assume ne: "localDay c t \<noteq> d"
    show False
    proof (cases "localDay c t < d")
      case True
      then show False
        using mono [of "localDay c t + 1" d] bounds [of t] that by simp
    next
      case False
      then show False
        using ne mono [of "d + 1" "localDay c t"] bounds [of t] that by simp
    qed
  qed
  have wall: "0 \<le> timeWithinDay c checkDate \<and> timeWithinDay c checkDate < msPerDay"
    using bounds [of checkDate] step_of [of "localDay c checkDate + 1" "localDay c checkDate"]
    by (auto simp add: timeWithinDay_def offsetAt_def switchInstant_def ofLocalDay_def
          msPerDay_def msPerHour_def algebra_simps)
  have "localDay c (fromLocal c (localDay c checkDate - 1) (timeWithinDay c checkDate))
          = localDay c checkDate - 1"
  proof (rule unique)
    show "ofLocalDay c (localDay c checkDate - 1)
            \<le> fromLocal c (localDay c checkDate - 1) (timeWithinDay c checkDate)"
      using wall step_of [of "localDay c checkDate - 1 + 1" "localDay c checkDate - 1"]
      by (auto simp add: fromLocal_def ofLocalDay_def msPerHour_def)
    show "fromLocal c (localDay c checkDate - 1) (timeWithinDay c checkDate)
            < ofLocalDay c (localDay c checkDate - 1 + 1)"
      using wall step_of [of "localDay c checkDate - 1 + 1" "localDay c checkDate - 1"]
      by (auto simp add: fromLocal_def ofLocalDay_def msPerHour_def msPerDay_def algebra_simps)
  qed
  then have step: "getDateKey c (addDays c checkDate (- 1)) = getDateKey c checkDate - 1"
    by (simp add: getDateKey_def addDays_def)
  from h obtain l where l: "l \<in> set ls" "dateKey l = getDateKey c checkDate"
    by (auto simp: hasLog_def)
  have inner: "filter (\<lambda>l. dateKey l \<le> getDateKey c checkDate - 1) ls
          = filter (\<lambda>l. dateKey l \<le> getDateKey c checkDate - 1)
              (filter (\<lambda>l. dateKey l \<le> getDateKey c checkDate) ls)"
    by (simp, rule filter_cong) auto
  have "length (filter (\<lambda>l. dateKey l \<le> getDateKey c checkDate - 1)
                  (filter (\<lambda>l. dateKey l \<le> getDateKey c checkDate) ls))
          < length (filter (\<lambda>l. dateKey l \<le> getDateKey c checkDate) ls)"
    by (rule length_filter_less [of l]) (use l in auto)
  then have "length (filter (\<lambda>l. dateKey l \<le> getDateKey c checkDate - 1) ls)
          < length (filter (\<lambda>l. dateKey l \<le> getDateKey c checkDate) ls)"
    using inner by simp
  then show "((c, ls, addDays c checkDate (- 1), streak + 1), (c, ls, checkDate, streak))
        \<in> measure (\<lambda>(c, ls, checkDate, streak).
              length (filter (\<lambda>l. dateKey l \<le> getDateKey c checkDate) ls))"
    by (simp add: step)
qed

declare streakWalk.simps [simp del]

definition sortedLogs :: "log list \<Rightarrow> log list" where
  \<comment> \<open>stable sort, latest day first\<close>
  "sortedLogs ls = sort_key (\<lambda>l. - parseDateKey (dateKey l)) ls"

definition storeStreak :: "clock \<Rightarrow> log list \<Rightarrow> int" where
  "storeStreak c habitLogs =
     (let todayKey = getTodayDateKey c;
          yesterdayKey = getDateKey c (addDays c (now c) (- 1));
          completedToday = hasLog (sortedLogs habitLogs) todayKey;
          completedYesterday = hasLog (sortedLogs habitLogs) yesterdayKey
      in if completedToday \<or> completedYesterday
         then streakWalk c (sortedLogs habitLogs)
                (if \<not> completedToday then addDays c (now c) (- 1) else now c) 0
         else 0)"

definition daysSinceCreation :: "clock \<Rightarrow> time option \<Rightarrow> int" where
  "daysSinceCreation c cs =
     (case cs of None \<Rightarrow> 30
      | Some s \<Rightarrow> (startOfDay c (now c) - s) div msPerDay + 1)"

definition periodDays :: "clock \<Rightarrow> time option \<Rightarrow> int" where
  "periodDays c cs = min 30 (max 1 (daysSinceCreation c cs))"

definition periodStart :: "clock \<Rightarrow> time option \<Rightarrow> time" where
  "periodStart c cs = addDays c (startOfDay c (now c)) (- periodDays c cs + 1)"

definition effectiveStart :: "clock \<Rightarrow> time option \<Rightarrow> time" where
  "effectiveStart c cs =
     (case cs of None \<Rightarrow> periodStart c cs
      | Some s \<Rightarrow> if s > periodStart c cs then s else periodStart c cs)"

definition logsInPeriod :: "clock \<Rightarrow> time option \<Rightarrow> log list \<Rightarrow> int" where
  "logsInPeriod c cs habitLogs =
     int (length (filter (\<lambda>l. parseDateKey (dateKey l) \<ge> effectiveStart c cs
                              \<and> parseDateKey (dateKey l) \<le> startOfDay c (now c)) habitLogs))"

text \<open>
  \<open>Math.round\<close> rounds to the nearest integer, a half upwards. The quotient is taken
  in the rationals: with a denominator of at most 30 every half-way case is a multiple
  of one eighth, which binary floating point holds exactly, and every other case is
  further from a half than the rounding error.
\<close>

definition mathRound :: "rat \<Rightarrow> int" where
  "mathRound x = \<lfloor>x + 1 / 2\<rfloor>"

definition consistencyScoreOf :: "clock \<Rightarrow> 'a habit_scheme option \<Rightarrow> log list \<Rightarrow> int" where
  "consistencyScoreOf c h habitLogs =
     (let cs = createdAtStartOfDay c h;
          pd = periodDays c cs;
          n = logsInPeriod c cs habitLogs
      in if isNegative h
         then mathRound ((of_int (pd - n) / of_int pd) * 100)
         else mathRound ((of_int n / of_int pd) * 100))"

definition selectLogs :: "bool \<Rightarrow> store \<Rightarrow> database \<Rightarrow> string \<Rightarrow> jsError + log list" where
  "selectLogs isWeb st db hid =
     (if isWeb then Inr (filter (\<lambda>l. logHabitId l = hid) (webLogs st))
      else (case db of
              Inl e \<Rightarrow> Inl e
            | Inr t \<Rightarrow> Inr (filter (\<lambda>l. logHabitId l = hid) (logsTable t))))"

text \<open>
  The result of an \<open>async\<close> function is a sum: \<open>Inl\<close> is a rejected promise, \<open>Inr\<close> a
  resolved one. The fetchers read the store and the database and change neither.
\<close>

definition getHabitDetails ::
  "clock \<Rightarrow> bool \<Rightarrow> store \<Rightarrow> database \<Rightarrow> string \<Rightarrow> jsError + details" where
  "getHabitDetails c isWeb st db hid =
     (case selectLogs isWeb st db hid of
        Inr habitLogs \<Rightarrow>
          Inr \<lparr> logs = habitLogs,
                currentStreak = storeStreak c habitLogs,
                consistencyScore =
                  consistencyScoreOf c (find (\<lambda>h. habitId h = hid) (habits st)) habitLogs,
                totalCompletions = int (length habitLogs) \<rparr>
      | Inl e \<Rightarrow>
          Inr \<lparr> logs = [], currentStreak = 0, consistencyScore = 0, totalCompletions = 0 \<rparr>)"

subsection \<open>getHabitsWithSparkline\<close>

record sparklineDay =
  sparkHasLog :: bool
  isBeforeCreation :: bool

record habitWithSparkline = habitWithStatus +
  sparkline :: "sparklineDay list"

definition last7Days :: "clock \<Rightarrow> time list" where
  "last7Days c = map (\<lambda>i. addDays c (now c) (- (6 - i))) [0 .. 6]"

definition sparklineOf :: "clock \<Rightarrow> habit \<Rightarrow> log list \<Rightarrow> sparklineDay list" where
  "sparklineOf c h habitLogs =
     map (\<lambda>date. \<lparr> sparkHasLog = hasLog habitLogs (getDateKey c date),
                   isBeforeCreation =
                     (case createdAt h of None \<Rightarrow> False
                      | Some t \<Rightarrow> startOfDay c date < startOfDay c t) \<rparr>)
       (last7Days c)"

definition sparklineRow :: "clock \<Rightarrow> habit \<Rightarrow> log list \<Rightarrow> habitWithSparkline" where
  "sparklineRow c h habitLogs =
     (let todayLog = find (\<lambda>l. dateKey l = getTodayDateKey c) habitLogs
      in \<lparr> habitId = habitId h, habitType = habitType h, archived = archived h,
            createdAt = createdAt h, isCompletedToday = (todayLog \<noteq> None),
            todayLogId = map_option logId todayLog,
            sparkline = sparklineOf c h habitLogs \<rparr>)"

definition getHabitsWithSparkline ::
  "clock \<Rightarrow> bool \<Rightarrow> store \<Rightarrow> database \<Rightarrow> jsError + habitWithSparkline list" where
  "getHabitsWithSparkline c isWeb st db =
     (if isWeb then
        Inr (map (\<lambda>h. sparklineRow c h (filter (\<lambda>l. logHabitId l = habitId h) (webLogs st)))
               (filter (\<lambda>h. \<not> archived h) (webHabits st)))
      else
        (case db of
           Inl e \<Rightarrow> Inr []
         | Inr t \<Rightarrow>
             Inr (map (\<lambda>h. sparklineRow c h (filter (\<lambda>l. logHabitId l = habitId h) (logsTable t)))
                    (filter (\<lambda>h. \<not> archived h) (habitsTable t)))))"

subsection \<open>What the screens hold\<close>

definition screenStreaks :: "clock \<Rightarrow> bool \<Rightarrow> store \<Rightarrow> database \<Rightarrow> string \<Rightarrow> int \<times> int" where
  \<comment> \<open>the detail screen: \<open>habit\<close> is found in the store's habits, \<open>details\<close> is what
     \<open>getHabitDetails\<close> resolved to; the pair is current and longest streak\<close>
  "screenStreaks c isWeb st db hid =
     (let habit = find (\<lambda>h. habitId h = hid) (habits st);
          dt = (case getHabitDetails c isWeb st db hid of Inr d \<Rightarrow> Some d | Inl e \<Rightarrow> None)
      in (calculateStreak c habit dt, longestStreak c habit dt))"

definition storedLogs :: "bool \<Rightarrow> store \<Rightarrow> database \<Rightarrow> log list" where
  \<comment> \<open>the logs the platform keeps: in memory on the web, in the table otherwise\<close>
  "storedLogs isWeb st db =
     (if isWeb then webLogs st else (case db of Inl e \<Rightarrow> [] | Inr t \<Rightarrow> logsTable t))"

definition logDays :: "bool \<Rightarrow> store \<Rightarrow> database \<Rightarrow> string \<Rightarrow> dateKey set" where
  "logDays isWeb st db hid =
     set (map dateKey (filter (\<lambda>l. logHabitId l = hid) (storedLogs isWeb st db)))"

section \<open>The positive-habit rule in words\<close>




section \<open>Sample data\<close>

text \<open>A year of 365 days, a clock, a habit and logs to run the functions on.\<close>

definition commonYear :: "int \<Rightarrow> int" where
  "commonYear d = d - 365"

definition noDst :: "int \<Rightarrow> bool" where
  "noDst d = False"

definition clockAt :: "time \<Rightarrow> int \<Rightarrow> clock" where
  \<comment> \<open>a zone at a fixed offset\<close>
  "clockAt t tz = \<lparr> now = t, tzOffset = tz, dst = noDst, oneYearBefore = commonYear \<rparr>"

definition newYorkDst :: "int \<Rightarrow> bool" where
  \<comment> \<open>2021 in New York: the clocks go forward on 14 March (day 18700) and back on
     7 November (day 18938); daylight saving time is in force at 00:00 of the days from
     15 March to 7 November\<close>
  "newYorkDst d = (18701 \<le> d \<and> d \<le> 18938)"

definition newYorkAt :: "time \<Rightarrow> clock" where
  \<comment> \<open>New York: five hours behind UTC in standard time\<close>
  "newYorkAt t = \<lparr> now = t, tzOffset = - 5 * msPerHour, dst = newYorkDst,
                   oneYearBefore = commonYear \<rparr>"

definition noon :: "int \<Rightarrow> time" where
  \<comment> \<open>twelve hours into day \<open>d\<close>, UTC\<close>
  "noon d = d * msPerDay + 43200000"

definition habitOf :: "string \<Rightarrow> time \<Rightarrow> habit" where
  "habitOf ty t = \<lparr> habitId = ''h1'', habitType = ty, archived = False, createdAt = Some t \<rparr>"

definition logOn :: "int \<Rightarrow> log" where
  "logOn d = \<lparr> logId = ''x'', logHabitId = ''h1'', dateKey = d, completedAt = noon d \<rparr>"

definition detailsOf :: "log list \<Rightarrow> details" where
  "detailsOf ls = \<lparr> logs = ls, currentStreak = 0, consistencyScore = 0, totalCompletions = 0 \<rparr>"

definition emptyStore :: store where
  "emptyStore = \<lparr> habits = [], isLoading = False, error = None, webHabits = [], webLogs = [],
                  version = 0 \<rparr>"

definition sampleStore :: store where
  \<comment> \<open>one positive habit created on day 7, logged on day 8, habits loaded on day 9\<close>
  "sampleStore =
     \<lparr> habits = [withStatus (habitOf ''positive'' (noon 7)) False None],
       isLoading = False, error = None,
       webHabits = [habitOf ''positive'' (noon 7)], webLogs = [logOn 8], version = 1 \<rparr>"

definition unavailable :: database where
  "unavailable = Inl (JsError ''database is locked'')"

definition sampleTables :: tables where
  \<comment> \<open>one negative habit created on day 7 with a lapse on day 8\<close>
  "sampleTables = \<lparr> habitsTable = [habitOf ''negative'' (noon 7)], logsTable = [logOn 8] \<rparr>"

section \<open>Calendar days\<close>

text \<open>
  The laws of the calendar, for every clock: local midnights increase with the day, every
  instant lies in exactly one local day, and moving by calendar days moves the day read
  from the result by as many. Two local midnights are a whole number of days apart only
  when the same offset is in force at both.
\<close>

lemma msPerDay_pos: "0 < msPerDay"
  by (simp add: msPerDay_def)

lemma div_less_iff_int: "0 < m \<Longrightarrow> (a::int) div m < k \<longleftrightarrow> a < k * m"
proof -
  assume m: "0 < m"
  have "(a - k * m) div m = a div m - k"
    using m div_mult_self1 [of m a "- k"] by simp
  moreover have "(a - k * m) div m < 0 \<longleftrightarrow> a - k * m < 0"
    using m by (rule pos_imp_zdiv_neg_iff)
  ultimately show ?thesis by linarith
qed

lemma midnightOffset_range:
  "tzOffset c \<le> midnightOffset c d \<and> midnightOffset c d \<le> tzOffset c + msPerHour"
  by (simp add: midnightOffset_def msPerHour_def)

lemma midnightOffset_step:
  "\<bar>midnightOffset c d - midnightOffset c e\<bar> \<le> msPerHour"
  by (simp add: midnightOffset_def msPerHour_def)

lemma ofLocalDay_less: "d < e \<Longrightarrow> ofLocalDay c d < ofLocalDay c e"
proof -
  assume "d < e"
  then have "(d + 1) * msPerDay \<le> e * msPerDay"
    using msPerDay_pos by (intro mult_right_mono) auto
  then show ?thesis
    using midnightOffset_step [of c e d]
    by (simp add: ofLocalDay_def msPerDay_def msPerHour_def algebra_simps)
qed

lemma ofLocalDay_mono: "d \<le> e \<Longrightarrow> ofLocalDay c d \<le> ofLocalDay c e"
  using ofLocalDay_less [of d e c] by (cases "d = e") auto

lemma localDay_bounds:
  "ofLocalDay c (localDay c t) \<le> t \<and> t < ofLocalDay c (localDay c t + 1)"
proof -
  let ?q = "(t + tzOffset c) div msPerDay"
  have lo: "?q * msPerDay \<le> t + tzOffset c"
    using div_less_iff_int [OF msPerDay_pos, of "t + tzOffset c" ?q] by simp
  have hi: "t + tzOffset c < (?q + 1) * msPerDay"
    using div_less_iff_int [OF msPerDay_pos, of "t + tzOffset c" "?q + 1"] by simp
  have a: "ofLocalDay c ?q \<le> t"
    using lo midnightOffset_range [of c ?q] by (simp add: ofLocalDay_def msPerHour_def)
  have b: "t < ofLocalDay c (?q + 2)"
    using hi midnightOffset_range [of c "?q + 2"]
    by (simp add: ofLocalDay_def msPerHour_def msPerDay_def algebra_simps)
  show ?thesis
    using a b by (simp add: localDay_def Let_def add.assoc)
qed

lemma localDay_unique:
  assumes "ofLocalDay c d \<le> t" and "t < ofLocalDay c (d + 1)"
  shows "localDay c t = d"
proof (rule ccontr)
  assume ne: "localDay c t \<noteq> d"
  have b: "ofLocalDay c (localDay c t) \<le> t \<and> t < ofLocalDay c (localDay c t + 1)"
    by (rule localDay_bounds)
  show False
  proof (cases "localDay c t < d")
    case True
    then have "ofLocalDay c (localDay c t + 1) \<le> ofLocalDay c d"
      by (intro ofLocalDay_mono) simp
    then show False using b assms by linarith
  next
    case False
    then have "ofLocalDay c (d + 1) \<le> ofLocalDay c (localDay c t)"
      using ne by (intro ofLocalDay_mono) simp
    then show False using b assms by linarith
  qed
qed

lemma localDay_ofLocalDay: "localDay c (ofLocalDay c d) = d"
  by (rule localDay_unique) (simp_all add: ofLocalDay_less)


lemma lt_ofLocalDay_iff: "t < ofLocalDay c d \<longleftrightarrow> localDay c t < d"
proof
  assume "t < ofLocalDay c d"
  then have "ofLocalDay c (localDay c t) < ofLocalDay c d"
    using localDay_bounds [of c t] by linarith
  then show "localDay c t < d"
    using ofLocalDay_mono [of d "localDay c t" c] by (cases "localDay c t < d") auto
next
  assume "localDay c t < d"
  then have "ofLocalDay c (localDay c t + 1) \<le> ofLocalDay c d"
    by (intro ofLocalDay_mono) simp
  then show "t < ofLocalDay c d"
    using localDay_bounds [of c t] by linarith
qed

lemma timeWithinDay_range: "0 \<le> timeWithinDay c t \<and> timeWithinDay c t < msPerDay"
proof -
  let ?d = "localDay c t"
  have b: "ofLocalDay c ?d \<le> t \<and> t < ofLocalDay c (?d + 1)"
    by (rule localDay_bounds)
  show ?thesis
    using b midnightOffset_step [of c "?d + 1" ?d]
    by (auto simp add: timeWithinDay_def offsetAt_def switchInstant_def ofLocalDay_def
          msPerDay_def msPerHour_def algebra_simps)
qed

lemma localDay_localTime: "localDay c t = (t + offsetAt c t) div msPerDay"
proof -
  have r: "0 \<le> timeWithinDay c t \<and> timeWithinDay c t < msPerDay"
    by (rule timeWithinDay_range)
  have "t + offsetAt c t = localDay c t * msPerDay + timeWithinDay c t"
    by (simp add: timeWithinDay_def)
  then have "(t + offsetAt c t) div msPerDay = localDay c t + timeWithinDay c t div msPerDay"
    using msPerDay_pos by simp
  then show ?thesis
    using r by (simp add: div_pos_pos_trivial)
qed

lemma localDay_fromLocal:
  assumes "0 \<le> w" and "w < msPerDay"
  shows "localDay c (fromLocal c d w) = d"
proof (rule localDay_unique)
  show "ofLocalDay c d \<le> fromLocal c d w"
    using assms midnightOffset_step [of c "d + 1" d]
    by (auto simp add: fromLocal_def ofLocalDay_def msPerHour_def)
  show "fromLocal c d w < ofLocalDay c (d + 1)"
    using assms midnightOffset_step [of c "d + 1" d]
    by (auto simp add: fromLocal_def ofLocalDay_def msPerHour_def msPerDay_def algebra_simps)
qed

lemma localDay_addDays: "localDay c (addDays c t n) = localDay c t + n"
  using timeWithinDay_range [of c t] by (simp add: addDays_def localDay_fromLocal)


lemma getDateKey_addDays: "getDateKey c (addDays c t n) = localDay c t + n"
  by (simp add: getDateKey_def localDay_addDays)

lemma beforeCreation_Some:
  "beforeCreation (Some (startOfDay c s)) (addDays c t n) \<longleftrightarrow> localDay c t + n < localDay c s"
  by (simp add: beforeCreation_def startOfDay_def lt_ofLocalDay_iff localDay_addDays)

lemma diff_before_div: "t < ofLocalDay c d \<Longrightarrow> (t - ofLocalDay c d) div msPerDay < 0"
  using msPerDay_pos by (simp add: pos_imp_zdiv_neg_iff)

lemma diff_ofLocalDay_div:
  assumes "offsetAt c t = midnightOffset c d"
  shows "(t - ofLocalDay c d) div msPerDay = localDay c t - d"
proof -
  have r: "0 \<le> timeWithinDay c t \<and> timeWithinDay c t < msPerDay"
    by (rule timeWithinDay_range)
  have "t - ofLocalDay c d = (localDay c t - d) * msPerDay + timeWithinDay c t"
    using assms by (simp add: ofLocalDay_def timeWithinDay_def algebra_simps)
  then have "(t - ofLocalDay c d) div msPerDay
           = localDay c t - d + timeWithinDay c t div msPerDay"
    using msPerDay_pos by simp
  then show ?thesis
    using r by (simp add: div_pos_pos_trivial)
qed


text \<open>The sample clock at a fixed offset.\<close>

lemma now_clockAt: "now (clockAt t tz) = t"
  by (simp add: clockAt_def)

lemma midnightOffset_clockAt: "midnightOffset (clockAt t tz) d = tz"
  by (simp add: midnightOffset_def clockAt_def noDst_def)

lemma ofLocalDay_clockAt: "ofLocalDay (clockAt t tz) d = d * msPerDay - tz"
  by (simp add: ofLocalDay_def midnightOffset_clockAt)

lemma localDay_clockAt: "localDay (clockAt t tz) x = (x + tz) div msPerDay"
proof -
  have "x + tz < ((x + tz) div msPerDay + 1) * msPerDay"
    using div_less_iff_int [OF msPerDay_pos, of "x + tz" "(x + tz) div msPerDay + 1"] by simp
  then have "\<not> ofLocalDay (clockAt t tz) ((x + tz) div msPerDay + 1) \<le> x"
    by (simp add: ofLocalDay_clockAt)
  then show ?thesis
    by (simp add: localDay_def Let_def) (simp add: clockAt_def)
qed


section \<open>Rounding\<close>

lemma mathRound_0: "mathRound 0 = 0"
  unfolding mathRound_def by (rule floor_unique) simp_all

lemma mathRound_100: "mathRound 100 = 100"
  unfolding mathRound_def by (rule floor_unique) simp_all

section \<open>A positive habit without logs\<close>

lemma positiveLoop_no_logs: "positiveLoop c cs [] 0 0 = 0"
  by (simp add: positiveLoop.simps [of c cs "[]" 0 0] positiveLoop.simps [of c cs "[]" 1 0]
        hasLog_def)

lemma longestLoop_no_logs: "longestLoop c False [] s dd i 0 0 = 0"
  by (induction c False "[] :: log list" s dd i "0::int" "0::int" rule: longestLoop.induct)
     (subst longestLoop.simps, simp add: hasLog_def)

lemma storeStreak_no_logs: "storeStreak c [] = 0"
  by (simp add: storeStreak_def sortedLogs_def hasLog_def)

text \<open>
  C10. A positive habit whose log list is empty has current streak 0 (on the detail
  screen and in the store), longest streak 0 and consistency score 0, whatever the clock
  and the creation time.
\<close>

theorem positive_no_logs_all_zero:
  assumes "habitType h = ''positive''" and "logs d = []"
  shows "calculateStreak c (Some h) (Some d) = 0
       \<and> longestStreak c (Some h) (Some d) = 0
       \<and> consistencyScoreOf c (Some h) (logs d) = 0
       \<and> storeStreak c (logs d) = 0"
  using assms
  by (simp add: calculateStreak_def longestStreak_def consistencyScoreOf_def isNegative_def
        positiveLoop_no_logs longestLoop_no_logs logsInPeriod_def mathRound_0
        storeStreak_no_logs)

theorem positive_no_logs_all_zero_witness:
  "calculateStreak (clockAt (noon 9) 0) (Some (habitOf ''positive'' (noon 0))) (Some (detailsOf [])) = 0
 \<and> longestStreak (clockAt (noon 9) 0) (Some (habitOf ''positive'' (noon 0))) (Some (detailsOf [])) = 0
 \<and> consistencyScoreOf (clockAt (noon 9) 0) (Some (habitOf ''positive'' (noon 0))) [] = 0
 \<and> storeStreak (clockAt (noon 9) 0) [] = 0"
  using positive_no_logs_all_zero
    [of "habitOf ''positive'' (noon 0)" "detailsOf []" "clockAt (noon 9) 0"]
  by (simp add: habitOf_def detailsOf_def)

section \<open>A negative habit without a lapse\<close>


lemma effectiveStart_ge:
  "s \<le> effectiveStart c (Some s)"
  by (simp add: effectiveStart_def)






lemma createdAtStartOfDay_Some:
  "createdAt h = Some s \<Longrightarrow> createdAtStartOfDay c (Some h) = Some (startOfDay c s)"
  by (simp add: createdAtStartOfDay_def)







section \<open>Today before the creation day\<close>

lemma calculateStreak_skew:
  assumes created: "createdAt h = Some s"
    and skew: "localDay c (now c) < localDay c s"
  shows "calculateStreak c (Some h) (Some d) = 0"
proof -
  have bc: "beforeCreation (Some (startOfDay c s)) (addDays c (now c) (- 0))"
    using skew beforeCreation_Some [of c s "now c" "- 0"] by simp
  have "negativeLoop c (Some (startOfDay c s)) (logs d) 0 0 = 0"
    using bc by (subst negativeLoop.simps) simp
  moreover have "positiveLoop c (Some (startOfDay c s)) (logs d) 0 0 = 0"
    using bc by (subst positiveLoop.simps) simp
  ultimately show ?thesis
    by (simp add: calculateStreak_def createdAtStartOfDay_Some [OF created])
qed

lemma longestStart_Some:
  "createdAt h = Some s \<Longrightarrow> longestStart c (Some h) = startOfDay c s"
  by (simp add: longestStart_def createdAtStartOfDay_Some)


lemma longestStreak_skew:
  assumes created: "createdAt h = Some s"
    and skew: "localDay c (now c) < localDay c s"
  shows "longestStreak c (Some h) (Some d) = 0"
proof -
  have "now c < startOfDay c s"
    using skew by (simp add: startOfDay_def lt_ofLocalDay_iff)
  then have "(now c - startOfDay c s) div msPerDay < 0"
    unfolding startOfDay_def by (rule diff_before_div)
  then have "longestLoop c neg (logs d) (startOfDay c s)
        ((now c - startOfDay c s) div msPerDay) 0 0 0 = 0" for neg
    by (subst longestLoop.simps) simp
  then show ?thesis
    by (simp add: longestStreak_def longestStart_Some [OF created])
qed

lemma periodDays_skew:
  assumes skew: "localDay c (now c) < localDay c s"
  shows "periodDays c (Some (startOfDay c s)) = 1"
proof -
  have "startOfDay c (now c) < startOfDay c s"
    using skew by (simp add: startOfDay_def ofLocalDay_less)
  then have "(startOfDay c (now c) - startOfDay c s) div msPerDay < 0"
    unfolding startOfDay_def [of c s] by (rule diff_before_div)
  then show ?thesis
    by (simp add: periodDays_def daysSinceCreation_def)
qed

lemma logsInPeriod_skew:
  assumes skew: "localDay c (now c) < localDay c s"
  shows "logsInPeriod c (Some (startOfDay c s)) ls = 0"
proof -
  have "startOfDay c (now c) < startOfDay c s"
    using skew by (simp add: startOfDay_def ofLocalDay_less)
  then have "\<not> (effectiveStart c (Some (startOfDay c s)) \<le> t \<and> t \<le> startOfDay c (now c))" for t
    using effectiveStart_ge [of "startOfDay c s" c] by linarith
  then show ?thesis
    by (simp add: logsInPeriod_def)
qed

lemma consistency_skew:
  assumes created: "createdAt h = Some s"
    and skew: "localDay c (now c) < localDay c s"
  shows "consistencyScoreOf c (Some h) ls = (if habitType h = ''negative'' then 100 else 0)"
  by (simp add: consistencyScoreOf_def createdAtStartOfDay_Some [OF created]
        periodDays_skew [OF skew] logsInPeriod_skew [OF skew] isNegative_def
        mathRound_100 mathRound_0)


text \<open>
  C6, as stated: with today strictly before the creation day every statistic is 0. For a
  negative habit the score is computed over a period clamped to one day with no log
  counted in it, which gives 100.
\<close>

theorem clock_skew_counterexample:
  "consistencyScoreOf (clockAt (noon 2) 0) (Some (habitOf ''negative'' (noon 5))) [] = 100
   \<and> localDay (clockAt (noon 2) 0) (now (clockAt (noon 2) 0))
        < localDay (clockAt (noon 2) 0) (noon 5)"
  using consistency_skew [of "habitOf ''negative'' (noon 5)" "noon 5" "clockAt (noon 2) 0" "[]"]
  by (simp add: habitOf_def now_clockAt localDay_clockAt noon_def msPerDay_def)

text \<open>
  C6, amended: with today strictly before the creation day, the current streak and the
  longest streak of the detail screen are 0, and the consistency score is 0 for a
  positive habit and 100 for a negative one; every function returns a value.
\<close>

theorem clock_skew_values:
  assumes created: "createdAt h = Some s"
    and skew: "localDay c (now c) < localDay c s"
  shows "calculateStreak c (Some h) (Some d) = 0
       \<and> longestStreak c (Some h) (Some d) = 0
       \<and> consistencyScoreOf c (Some h) (logs d)
           = (if habitType h = ''negative'' then 100 else 0)"
  using calculateStreak_skew [OF created skew] longestStreak_skew [OF created skew]
    consistency_skew [OF created skew]
  by simp

theorem clock_skew_values_witness:
  "calculateStreak (clockAt (noon 2) 0) (Some (habitOf ''positive'' (noon 5)))
       (Some (detailsOf [logOn 2, logOn 5])) = 0
   \<and> longestStreak (clockAt (noon 2) 0) (Some (habitOf ''positive'' (noon 5)))
       (Some (detailsOf [logOn 2, logOn 5])) = 0
   \<and> consistencyScoreOf (clockAt (noon 2) 0) (Some (habitOf ''positive'' (noon 5)))
       [logOn 2, logOn 5] = 0"
  using clock_skew_values
    [of "habitOf ''positive'' (noon 5)" "noon 5" "clockAt (noon 2) 0"
        "detailsOf [logOn 2, logOn 5]"]
  by (simp add: habitOf_def detailsOf_def now_clockAt localDay_clockAt noon_def msPerDay_def)

section \<open>The consistency score\<close>













text \<open>
  Two more inputs on which the code leaves the claim, both by the way it compares
  instants. The days between two local midnights are counted by dividing milliseconds by
  24 hours: in New York on 15 March 2021, the day after the clocks went forward, a habit
  created on 6 March (9 days before) has \<open>periodDays = 9\<close>, and 5 logged days give 56.
  A date key is read as midnight UTC and compared with local midnights: five and a half
  hours east of UTC a log dated today is after today's local midnight and is not counted,
  so that 5 logged days, today among them, give 40.
\<close>

theorem period_across_clock_change:
  "localDay (newYorkAt (18701 * msPerDay + 16 * msPerHour))
       (now (newYorkAt (18701 * msPerDay + 16 * msPerHour)))
     - localDay (newYorkAt (18701 * msPerDay + 16 * msPerHour))
         (18692 * msPerDay + 17 * msPerHour) = 9
   \<and> periodDays (newYorkAt (18701 * msPerDay + 16 * msPerHour))
        (createdAtStartOfDay (newYorkAt (18701 * msPerDay + 16 * msPerHour))
           (Some (habitOf ''positive'' (18692 * msPerDay + 17 * msPerHour)))) = 9
   \<and> consistencyScoreOf (newYorkAt (18701 * msPerDay + 16 * msPerHour))
        (Some (habitOf ''positive'' (18692 * msPerDay + 17 * msPerHour)))
        [logOn 18694, logOn 18696, logOn 18698, logOn 18700, logOn 18701] = 56"
  by code_simp

theorem today_not_counted_east_of_utc:
  "localDay (clockAt (noon 9) 19800000) (now (clockAt (noon 9) 19800000))
     - localDay (clockAt (noon 9) 19800000) (noon 0) = 9
   \<and> periodDays (clockAt (noon 9) 19800000)
        (createdAtStartOfDay (clockAt (noon 9) 19800000)
           (Some (habitOf ''positive'' (noon 0)))) = 10
   \<and> logsInPeriod (clockAt (noon 9) 19800000)
        (createdAtStartOfDay (clockAt (noon 9) 19800000)
           (Some (habitOf ''positive'' (noon 0))))
        [logOn 1, logOn 3, logOn 5, logOn 7, logOn 9] = 4
   \<and> consistencyScoreOf (clockAt (noon 9) 19800000) (Some (habitOf ''positive'' (noon 0)))
        [logOn 1, logOn 3, logOn 5, logOn 7, logOn 9] = 40"
  by code_simp



section \<open>The streak of the store\<close>














section \<open>What the walks of the detail screen read\<close>



lemma longestLoop_step:
  "i \<le> dd \<Longrightarrow> longestLoop c neg ls start dd i m cur =
     (if hasLog ls (getDateKey c (addDays c start i)) = neg
      then longestLoop c neg ls start dd (i + 1) m 0
      else longestLoop c neg ls start dd (i + 1) (max m (cur + 1)) (cur + 1))"
  by (subst longestLoop.simps) auto

lemma longestLoop_done:
  "\<not> i \<le> dd \<Longrightarrow> longestLoop c neg ls start dd i m cur = m"
  by (subst longestLoop.simps) simp


section \<open>Runs of successful days\<close>

lemma negativeLoop_run:
  assumes "0 \<le> i" and "i \<le> 366"
  shows "s \<le> negativeLoop c cs ls i s
       \<and> i + (negativeLoop c cs ls i s - s) \<le> 366
       \<and> (\<forall>j. i \<le> j \<and> j < i + (negativeLoop c cs ls i s - s)
              \<longrightarrow> \<not> beforeCreation cs (addDays c (now c) (- j))
                \<and> \<not> hasLog ls (getDateKey c (addDays c (now c) (- j))))"
  using assms
proof (induction c cs ls i s rule: negativeLoop.induct)
  case (1 c cs ls i streak)
  show ?case
  proof (cases "i \<le> 365 \<and> \<not> beforeCreation cs (addDays c (now c) (- i))
                \<and> \<not> hasLog ls (getDateKey c (addDays c (now c) (- i)))")
    case True
    then have eq: "negativeLoop c cs ls i streak = negativeLoop c cs ls (i + 1) (streak + 1)"
      by (subst negativeLoop.simps) simp
    have ih: "streak + 1 \<le> negativeLoop c cs ls (i + 1) (streak + 1)
       \<and> i + 1 + (negativeLoop c cs ls (i + 1) (streak + 1) - (streak + 1)) \<le> 366
       \<and> (\<forall>j. i + 1 \<le> j \<and> j < i + 1 + (negativeLoop c cs ls (i + 1) (streak + 1) - (streak + 1))
              \<longrightarrow> \<not> beforeCreation cs (addDays c (now c) (- j))
                \<and> \<not> hasLog ls (getDateKey c (addDays c (now c) (- j))))"
      using True "1.prems" by (intro "1.IH") auto
    show ?thesis
    proof (intro conjI allI impI)
      show "streak \<le> negativeLoop c cs ls i streak" using ih eq by simp
      show "i + (negativeLoop c cs ls i streak - streak) \<le> 366" using ih eq by simp
    next
      fix j
      assume j: "i \<le> j \<and> j < i + (negativeLoop c cs ls i streak - streak)"
      have "j = i \<or> (i + 1 \<le> j \<and> j < i + 1 + (negativeLoop c cs ls (i + 1) (streak + 1) - (streak + 1)))"
        using j eq by auto
      then show "\<not> beforeCreation cs (addDays c (now c) (- j))"
        using True ih by blast
    next
      fix j
      assume j: "i \<le> j \<and> j < i + (negativeLoop c cs ls i streak - streak)"
      have "j = i \<or> (i + 1 \<le> j \<and> j < i + 1 + (negativeLoop c cs ls (i + 1) (streak + 1) - (streak + 1)))"
        using j eq by auto
      then show "\<not> hasLog ls (getDateKey c (addDays c (now c) (- j)))"
        using True ih by blast
    qed
  next
    case False
    then have "negativeLoop c cs ls i streak = streak"
      by (subst negativeLoop.simps) auto
    then show ?thesis using "1.prems" by auto
  qed
qed

lemma positiveLoop_run:
  assumes "1 \<le> i" and "i \<le> 365"
  shows "s \<le> positiveLoop c cs ls i s
       \<and> i + (positiveLoop c cs ls i s - s) \<le> 365
       \<and> (\<forall>j. i \<le> j \<and> j < i + (positiveLoop c cs ls i s - s)
              \<longrightarrow> \<not> beforeCreation cs (addDays c (now c) (- j))
                \<and> hasLog ls (getDateKey c (addDays c (now c) (- j))))"
  using assms
proof (induction c cs ls i s rule: positiveLoop.induct)
  case (1 c cs ls i streak)
  show ?case
  proof (cases "i < 365 \<and> \<not> beforeCreation cs (addDays c (now c) (- i))
                \<and> hasLog ls (getDateKey c (addDays c (now c) (- i)))")
    case True
    then have eq: "positiveLoop c cs ls i streak = positiveLoop c cs ls (i + 1) (streak + 1)"
      by (subst positiveLoop.simps) simp
    have ih: "streak + 1 \<le> positiveLoop c cs ls (i + 1) (streak + 1)
       \<and> i + 1 + (positiveLoop c cs ls (i + 1) (streak + 1) - (streak + 1)) \<le> 365
       \<and> (\<forall>j. i + 1 \<le> j \<and> j < i + 1 + (positiveLoop c cs ls (i + 1) (streak + 1) - (streak + 1))
              \<longrightarrow> \<not> beforeCreation cs (addDays c (now c) (- j))
                \<and> hasLog ls (getDateKey c (addDays c (now c) (- j))))"
      using True "1.prems" by (intro "1.IH"(1)) auto
    show ?thesis
    proof (intro conjI allI impI)
      show "streak \<le> positiveLoop c cs ls i streak" using ih eq by simp
      show "i + (positiveLoop c cs ls i streak - streak) \<le> 365" using ih eq by simp
    next
      fix j
      assume j: "i \<le> j \<and> j < i + (positiveLoop c cs ls i streak - streak)"
      have "j = i \<or> (i + 1 \<le> j \<and> j < i + 1 + (positiveLoop c cs ls (i + 1) (streak + 1) - (streak + 1)))"
        using j eq by auto
      then show "\<not> beforeCreation cs (addDays c (now c) (- j))"
        using True ih by blast
    next
      fix j
      assume j: "i \<le> j \<and> j < i + (positiveLoop c cs ls i streak - streak)"
      have "j = i \<or> (i + 1 \<le> j \<and> j < i + 1 + (positiveLoop c cs ls (i + 1) (streak + 1) - (streak + 1)))"
        using j eq by auto
      then show "hasLog ls (getDateKey c (addDays c (now c) (- j)))"
        using True ih by blast
    qed
  next
    case False
    then have "positiveLoop c cs ls i streak = streak"
      using "1.prems" by (subst positiveLoop.simps) auto
    then show ?thesis using "1.prems" by auto
  qed
qed

lemma longestLoop_mono: "m \<le> longestLoop c neg ls start dd i m cur"
proof (induction "nat (dd + 1 - i)" arbitrary: i m cur)
  case 0
  then have "\<not> i \<le> dd" by simp
  then show ?case by (simp add: longestLoop_done)
next
  case (Suc n)
  then have le: "i \<le> dd" by simp
  have n: "n = nat (dd + 1 - (i + 1))" using Suc.hyps(2) by simp
  have a: "m \<le> longestLoop c neg ls start dd (i + 1) m 0"
    by (rule Suc.hyps(1) [OF n])
  have "max m (cur + 1) \<le> longestLoop c neg ls start dd (i + 1) (max m (cur + 1)) (cur + 1)"
    by (rule Suc.hyps(1) [OF n])
  then have b: "m \<le> longestLoop c neg ls start dd (i + 1) (max m (cur + 1)) (cur + 1)"
    by simp
  show ?case
    using a b by (simp add: longestLoop_step [OF le])
qed

lemma longestLoop_run_here:
  assumes "i \<le> j" and "j \<le> dd"
    and "\<forall>k. i \<le> k \<and> k \<le> j \<longrightarrow> hasLog ls (getDateKey c (addDays c start k)) \<noteq> neg"
  shows "cur + (j - i + 1) \<le> longestLoop c neg ls start dd i m cur"
  using assms
proof (induction "nat (j + 1 - i)" arbitrary: i m cur)
  case 0
  then show ?case by simp
next
  case (Suc n)
  have le: "i \<le> dd" using Suc.prems by simp
  have ok: "hasLog ls (getDateKey c (addDays c start i)) \<noteq> neg"
    using Suc.prems by simp
  then have eq: "longestLoop c neg ls start dd i m cur
        = longestLoop c neg ls start dd (i + 1) (max m (cur + 1)) (cur + 1)"
    by (simp add: longestLoop_step [OF le])
  show ?case
  proof (cases "i = j")
    case True
    have "max m (cur + 1) \<le> longestLoop c neg ls start dd (i + 1) (max m (cur + 1)) (cur + 1)"
      by (rule longestLoop_mono)
    then show ?thesis using eq True by simp
  next
    case False
    have n: "n = nat (j + 1 - (i + 1))" using Suc.hyps(2) by simp
    have "cur + 1 + (j - (i + 1) + 1)
        \<le> longestLoop c neg ls start dd (i + 1) (max m (cur + 1)) (cur + 1)"
      using False Suc.prems by (intro Suc.hyps(1) [OF n]) auto
    then show ?thesis using eq by simp
  qed
qed

lemma longestLoop_run:
  assumes "0 \<le> cur" and "i \<le> a" and "a \<le> b" and "b \<le> dd"
    and "\<forall>k. a \<le> k \<and> k \<le> b \<longrightarrow> hasLog ls (getDateKey c (addDays c start k)) \<noteq> neg"
  shows "b - a + 1 \<le> longestLoop c neg ls start dd i m cur"
  using assms
proof (induction "nat (a - i)" arbitrary: i m cur)
  case 0
  then have "i = a" by simp
  then show ?case
    using longestLoop_run_here [of a b dd ls c start neg cur m] "0.prems" by simp
next
  case (Suc n)
  have le: "i \<le> dd" using Suc by simp
  have n: "n = nat (a - (i + 1))" using Suc.hyps(2) by simp
  have ia: "i + 1 \<le> a" using Suc.hyps(2) by simp
  have a1: "b - a + 1 \<le> longestLoop c neg ls start dd (i + 1) m 0"
    using Suc.prems ia by (intro Suc.hyps(1) [OF n]) auto
  have a2: "b - a + 1 \<le> longestLoop c neg ls start dd (i + 1) (max m (cur + 1)) (cur + 1)"
    using Suc.prems ia by (intro Suc.hyps(1) [OF n]) auto
  show ?case
    using a1 a2 by (simp add: longestLoop_step [OF le])
qed

section \<open>Longest streak against current streak\<close>

lemma longest_covers_run:
  assumes "0 \<le> lo" and "0 < r"
    and run: "\<forall>j. lo \<le> j \<and> j < lo + r \<longrightarrow> S \<le> T - j \<and> hasLog ls (T - j) \<noteq> neg"
  shows "r \<le> longestLoop c neg ls (ofLocalDay c S) (T - S) 0 0 0"
proof -
  let ?a = "T - S - (lo + r - 1)" and ?b = "T - S - lo"
  have "S \<le> T - (lo + r - 1)"
    using run assms(1,2) by simp
  then have a0: "0 \<le> ?a" by simp
  have ab: "?a \<le> ?b" using assms(2) by simp
  have bd: "?b \<le> T - S" using assms(1) by simp
  have keys: "\<forall>k. ?a \<le> k \<and> k \<le> ?b
        \<longrightarrow> hasLog ls (getDateKey c (addDays c (ofLocalDay c S) k)) \<noteq> neg"
  proof (intro allI impI)
    fix k
    assume k: "?a \<le> k \<and> k \<le> ?b"
    have key: "getDateKey c (addDays c (ofLocalDay c S) k) = T - (T - S - k)"
      by (simp add: getDateKey_addDays localDay_ofLocalDay)
    have "lo \<le> T - S - k \<and> T - S - k < lo + r"
      using k by auto
    then have "hasLog ls (T - (T - S - k)) \<noteq> neg"
      using run by blast
    then show "hasLog ls (getDateKey c (addDays c (ofLocalDay c S) k)) \<noteq> neg"
      unfolding key .
  qed
  have "?b - ?a + 1 \<le> longestLoop c neg ls (ofLocalDay c S) (T - S) 0 0 0"
    using a0 ab bd keys by (intro longestLoop_run) auto
  then show ?thesis by simp
qed

lemma startDay_eq:
  "localDay c (longestStart c (Some h))
     = (case createdAt h of Some s \<Rightarrow> localDay c s
        | None \<Rightarrow> oneYearBefore c (localDay c (now c)))"
  by (simp add: longestStart_def createdAtStartOfDay_def startOfDay_def localDay_ofLocalDay
        split: option.splits)

lemma longestStart_startDay:
  "longestStart c (Some h) = ofLocalDay c (localDay c (longestStart c (Some h)))"
  by (simp add: longestStart_def createdAtStartOfDay_def startOfDay_def localDay_ofLocalDay
        split: option.splits)

lemma longestStreak_startDay:
  assumes "offsetAt c (now c) = midnightOffset c (localDay c (longestStart c (Some h)))"
  shows "longestStreak c (Some h) (Some d)
     = longestLoop c (isNegative (Some h)) (logs d) (ofLocalDay c (localDay c (longestStart c (Some h))))
         (localDay c (now c) - localDay c (longestStart c (Some h))) 0 0 0"
  using longestStart_startDay [of c h] diff_ofLocalDay_div [OF assms]
  by (simp add: longestStreak_def)

lemma not_before_startDay:
  assumes year: "createdAt h \<noteq> None
        \<or> oneYearBefore c (localDay c (now c)) \<le> localDay c (now c) - 365"
    and j: "j \<le> 365"
    and nb: "\<not> beforeCreation (createdAtStartOfDay c (Some h)) (addDays c (now c) (- j))"
  shows "localDay c (longestStart c (Some h)) \<le> localDay c (now c) - j"
proof (cases "createdAt h")
  case None
  then show ?thesis using year j by (simp add: startDay_eq)
next
  case (Some s)
  then show ?thesis
    using nb beforeCreation_Some [of c s "now c" "- j"]
    by (simp add: startDay_eq createdAtStartOfDay_Some)
qed

lemma negative_le_longest:
  assumes year: "createdAt h \<noteq> None
        \<or> oneYearBefore c (localDay c (now c)) \<le> localDay c (now c) - 365"
  shows "negativeLoop c (createdAtStartOfDay c (Some h)) ls 0 0
       \<le> longestLoop c True ls (ofLocalDay c (localDay c (longestStart c (Some h))))
            (localDay c (now c) - localDay c (longestStart c (Some h))) 0 0 0"
proof -
  let ?cs = "createdAtStartOfDay c (Some h)"
  let ?r = "negativeLoop c ?cs ls 0 0"
  have run: "0 \<le> ?r \<and> 0 + (?r - 0) \<le> 366
       \<and> (\<forall>j. 0 \<le> j \<and> j < 0 + (?r - 0)
              \<longrightarrow> \<not> beforeCreation ?cs (addDays c (now c) (- j))
                \<and> \<not> hasLog ls (getDateKey c (addDays c (now c) (- j))))"
    by (rule negativeLoop_run) simp_all
  show ?thesis
  proof (cases "0 < ?r")
    case False
    then have "?r = 0" using run by simp
    then show ?thesis using longestLoop_mono [of 0] by simp
  next
    case True
    have "\<forall>j. 0 \<le> j \<and> j < 0 + ?r
            \<longrightarrow> localDay c (longestStart c (Some h)) \<le> localDay c (now c) - j
              \<and> hasLog ls (localDay c (now c) - j) \<noteq> True"
    proof (intro allI impI)
      fix j
      assume j: "0 \<le> j \<and> j < 0 + ?r"
      then have nb: "\<not> beforeCreation ?cs (addDays c (now c) (- j))"
        and nl: "\<not> hasLog ls (getDateKey c (addDays c (now c) (- j)))"
        using run by simp_all
      have "j \<le> 365" using j run by simp
      then show "localDay c (longestStart c (Some h)) \<le> localDay c (now c) - j
              \<and> hasLog ls (localDay c (now c) - j) \<noteq> True"
        using not_before_startDay [OF year _ nb] nl by (simp add: getDateKey_addDays)
    qed
    then show ?thesis
      using True longest_covers_run [of 0 ?r "localDay c (longestStart c (Some h))"
          "localDay c (now c)" ls True c]
      by simp
  qed
qed

lemma positive_le_longest:
  assumes year: "createdAt h \<noteq> None
        \<or> oneYearBefore c (localDay c (now c)) \<le> localDay c (now c) - 365"
  shows "positiveLoop c (createdAtStartOfDay c (Some h)) ls 0 0
       \<le> longestLoop c False ls (ofLocalDay c (localDay c (longestStart c (Some h))))
            (localDay c (now c) - localDay c (longestStart c (Some h))) 0 0 0"
proof -
  let ?cs = "createdAtStartOfDay c (Some h)"
  let ?T = "localDay c (now c)"
  let ?L = "longestLoop c False ls (ofLocalDay c (localDay c (longestStart c (Some h)))) (?T - localDay c (longestStart c (Some h))) 0 0 0"
  have key0: "getDateKey c (addDays c (now c) (- 0)) = ?T"
    by (simp add: getDateKey_addDays)
  have L0: "0 \<le> ?L" by (rule longestLoop_mono)
  have cover: "r \<le> ?L"
    if "0 \<le> lo" "0 < r" "lo + r \<le> 366"
      "\<forall>j. lo \<le> j \<and> j < lo + r \<longrightarrow> \<not> beforeCreation ?cs (addDays c (now c) (- j))
                \<and> hasLog ls (getDateKey c (addDays c (now c) (- j)))" for lo r
  proof -
    have "\<forall>j. lo \<le> j \<and> j < lo + r
            \<longrightarrow> localDay c (longestStart c (Some h)) \<le> ?T - j \<and> hasLog ls (?T - j) \<noteq> False"
    proof (intro allI impI)
      fix j
      assume j: "lo \<le> j \<and> j < lo + r"
      then have nb: "\<not> beforeCreation ?cs (addDays c (now c) (- j))"
        and hl: "hasLog ls (getDateKey c (addDays c (now c) (- j)))"
        using that(4) by simp_all
      have "j \<le> 365" using j that(3) by simp
      then show "localDay c (longestStart c (Some h)) \<le> ?T - j \<and> hasLog ls (?T - j) \<noteq> False"
        using not_before_startDay [OF year _ nb] hl by (simp add: getDateKey_addDays)
    qed
    then show ?thesis
      using that(1,2) longest_covers_run [of lo r "localDay c (longestStart c (Some h))"
          ?T ls False c]
      by simp
  qed
  show ?thesis
  proof (cases "beforeCreation ?cs (addDays c (now c) (- 0))")
    case True
    then have "positiveLoop c ?cs ls 0 0 = 0"
      by (subst positiveLoop.simps) simp
    then show ?thesis using L0 by simp
  next
    case nb: False
    show ?thesis
    proof (cases "hasLog ls ?T")
      case True
      let ?r = "positiveLoop c ?cs ls 1 1"
      have eq: "positiveLoop c ?cs ls 0 0 = ?r"
        using nb True key0 by (subst positiveLoop.simps) simp
      have run: "1 \<le> ?r \<and> 1 + (?r - 1) \<le> 365
         \<and> (\<forall>j. 1 \<le> j \<and> j < 1 + (?r - 1)
              \<longrightarrow> \<not> beforeCreation ?cs (addDays c (now c) (- j))
                \<and> hasLog ls (getDateKey c (addDays c (now c) (- j))))"
        by (rule positiveLoop_run) simp_all
      have "\<forall>j. 0 \<le> j \<and> j < 0 + ?r \<longrightarrow> \<not> beforeCreation ?cs (addDays c (now c) (- j))
                \<and> hasLog ls (getDateKey c (addDays c (now c) (- j)))"
      proof (intro allI impI)
        fix j
        assume j: "0 \<le> j \<and> j < 0 + ?r"
        then have "j = 0 \<or> (1 \<le> j \<and> j < 1 + (?r - 1))" by auto
        then show "\<not> beforeCreation ?cs (addDays c (now c) (- j))
                \<and> hasLog ls (getDateKey c (addDays c (now c) (- j)))"
          using nb True key0 run by auto
      qed
      then have "?r \<le> ?L"
        using run cover [of 0 ?r] by simp
      then show ?thesis using eq by simp
    next
      case False
      let ?r = "positiveLoop c ?cs ls 1 0"
      have eq: "positiveLoop c ?cs ls 0 0 = ?r"
        using nb False key0 by (subst positiveLoop.simps) simp
      have run: "0 \<le> ?r \<and> 1 + (?r - 0) \<le> 365
         \<and> (\<forall>j. 1 \<le> j \<and> j < 1 + (?r - 0)
              \<longrightarrow> \<not> beforeCreation ?cs (addDays c (now c) (- j))
                \<and> hasLog ls (getDateKey c (addDays c (now c) (- j))))"
        by (rule positiveLoop_run) simp_all
      show ?thesis
      proof (cases "0 < ?r")
        case True
        then have "?r \<le> ?L"
          using run cover [of 1 ?r] by simp
        then show ?thesis using eq by simp
      next
        case False
        then show ?thesis using eq run L0 by simp
      qed
    qed
  qed
qed

text \<open>
  As long as the offset from UTC in force now is the one of the midnight the scan starts
  from, the scan reaches today and the longest streak is at least the current streak.
  (For a habit without a creation time the scan starts one year back; the same date one
  year earlier is then at least 365 days back.)
\<close>

lemma current_le_longest_same_offset:
  assumes "createdAt h \<noteq> None
        \<or> oneYearBefore c (localDay c (now c)) \<le> localDay c (now c) - 365"
    and same: "offsetAt c (now c) = midnightOffset c (localDay c (longestStart c (Some h)))"
  shows "calculateStreak c (Some h) d \<le> longestStreak c (Some h) d"
proof (cases d)
  case None
  then show ?thesis by (simp add: calculateStreak_def longestStreak_def)
next
  case (Some dt)
  then show ?thesis
    using negative_le_longest [OF assms(1), of "logs dt"]
      positive_le_longest [OF assms(1), of "logs dt"]
    by (simp add: longestStreak_startDay [OF same] calculateStreak_def)
qed

text \<open>
  C5: on the detail screen the longest streak is at least the current streak. The code
  does not keep this. \<open>longestStreak\<close> takes the number of days to scan as the
  milliseconds between the starting midnight and now, divided by 24 hours and rounded
  down; after the clocks have gone forward the two are an hour short of whole days, and
  during the first hour of a day the scan stops at yesterday. In New York on 15 March
  2021 at 00:30, the day after the change, a positive habit created on 10 March and
  logged on each of its six days has current streak 6 and longest streak 5.
\<close>

theorem longest_below_current_after_clock_change:
  "localDay (newYorkAt (18701 * msPerDay + 16200000))
       (now (newYorkAt (18701 * msPerDay + 16200000))) = 18701
   \<and> localDay (newYorkAt (18701 * msPerDay + 16200000))
       (18696 * msPerDay + 17 * msPerHour) = 18696
   \<and> calculateStreak (newYorkAt (18701 * msPerDay + 16200000))
       (Some (habitOf ''positive'' (18696 * msPerDay + 17 * msPerHour)))
       (Some (detailsOf [logOn 18696, logOn 18697, logOn 18698, logOn 18699, logOn 18700,
          logOn 18701])) = 6
   \<and> longestStreak (newYorkAt (18701 * msPerDay + 16200000))
       (Some (habitOf ''positive'' (18696 * msPerDay + 17 * msPerHour)))
       (Some (detailsOf [logOn 18696, logOn 18697, logOn 18698, logOn 18699, logOn 18700,
          logOn 18701])) = 5"
  by code_simp

section \<open>How far back the walks go\<close>







section \<open>The creation-day boundary\<close>














text \<open>
  The claim also has the creation day itself eligible for every computation. The
  consistency score reads a date key as midnight UTC and compares it with the local
  midnight of the creation day: west of UTC the log of the creation day falls before the
  window. Five hours west of UTC, for a positive habit created on day 7 and read on day
  9, the log of day 7 leaves the score at 0, where the log of day 8 gives 33.
\<close>

theorem creation_day_log_not_counted_west_of_utc:
  "localDay (clockAt (noon 9) (- 18000000)) (noon 7) = 7
   \<and> localDay (clockAt (noon 9) (- 18000000)) (now (clockAt (noon 9) (- 18000000))) = 9
   \<and> dateKey (logOn 7) = 7
   \<and> consistencyScoreOf (clockAt (noon 9) (- 18000000))
        (Some (habitOf ''positive'' (noon 7))) [logOn 7] = 0
   \<and> consistencyScoreOf (clockAt (noon 9) (- 18000000))
        (Some (habitOf ''positive'' (noon 7))) [] = 0
   \<and> consistencyScoreOf (clockAt (noon 9) (- 18000000))
        (Some (habitOf ''positive'' (noon 7))) [logOn 8] = 33"
  by code_simp



section \<open>When the database cannot be read\<close>

text \<open>
  C7, as stated: when the log store cannot be read, the failure reaches the caller as an
  error and no defaulted result is returned in its place. Both fetchers catch the failure:
  \<open>getHabitDetails\<close> resolves to the all-zero details and \<open>getHabitsWithSparkline\<close> to
  the empty list.
\<close>

theorem store_unavailable_counterexample:
  "getHabitDetails (clockAt (noon 9) 0) False emptyStore unavailable ''h1''
     = Inr \<lparr> logs = [], currentStreak = 0, consistencyScore = 0, totalCompletions = 0 \<rparr>
   \<and> getHabitsWithSparkline (clockAt (noon 9) 0) False emptyStore unavailable = Inr []"
  by (simp add: getHabitDetails_def getHabitsWithSparkline_def selectLogs_def unavailable_def)

text \<open>
  C7, amended: when the database cannot be read, \<open>getHabitDetails\<close> resolves to the
  details with no logs, current streak 0, consistency score 0 and 0 completions, and
  \<open>getHabitsWithSparkline\<close> resolves to the empty list; neither rejects, whatever the
  error, the clock, the store and the habit. (Neither fetcher writes to the store.)
\<close>

theorem store_unavailable_defaults:
  "getHabitDetails c False st (Inl e) hid
     = Inr \<lparr> logs = [], currentStreak = 0, consistencyScore = 0, totalCompletions = 0 \<rparr>
   \<and> getHabitsWithSparkline c False st (Inl e) = Inr []"
  by (simp add: getHabitDetails_def getHabitsWithSparkline_def selectLogs_def)

section \<open>Toggling a day on and off\<close>

lemma findIndex_none: "filter P xs = [] \<Longrightarrow> findIndex P xs = - 1"
  by (induction xs) (auto split: if_splits)

lemma findIndex_last:
  "filter P xs = [] \<Longrightarrow> P x \<Longrightarrow> findIndex P (xs @ [x]) = int (length xs)"
  by (induction xs) (auto split: if_splits)

lemma splice1_last: "splice1 (xs @ [x]) (int (length xs)) = xs"
  by (simp add: splice1_def)

lemma toggle_web_twice:
  assumes absent: "filter (\<lambda>l. logHabitId l = hid
            \<and> dateKey l = (case dk of Some x \<Rightarrow> x | None \<Rightarrow> getTodayDateKey c)) (webLogs st) = []"
  shows "toggleHabit c True id2 hid dk (toggleHabit c True id1 hid dk (st, db))
       = (st \<lparr> habits := webHabitsWithStatus (getTodayDateKey c) (webHabits st) (webLogs st),
               isLoading := False, error := None, version := version st + 2 \<rparr>, db)"
proof -
  let ?k = "case dk of Some x \<Rightarrow> x | None \<Rightarrow> getTodayDateKey c"
  let ?P = "\<lambda>l. logHabitId l = hid \<and> dateKey l = ?k"
  let ?n = "\<lparr> logId = id1, logHabitId = hid, dateKey = ?k, completedAt = now c \<rparr>"
  have one: "toggleHabit c True id1 hid dk (st, db)
       = (loadHabits c True (st \<lparr> webLogs := webLogs st @ [?n] \<rparr>) db, db)"
    by (simp add: toggleHabit_def Let_def findIndex_none [OF absent])
  have idx: "findIndex ?P (webLogs st @ [?n]) = int (length (webLogs st))"
    by (rule findIndex_last [OF absent]) simp
  show ?thesis
    unfolding one
    by (simp add: toggleHabit_def Let_def loadHabits_def idx splice1_last)
qed

lemma toggle_web_once:
  assumes absent: "filter (\<lambda>l. logHabitId l = hid
            \<and> dateKey l = (case dk of Some x \<Rightarrow> x | None \<Rightarrow> getTodayDateKey c)) (webLogs st) = []"
  shows "webLogs (fst (toggleHabit c True id1 hid dk (st, db)))
       = webLogs st @ [\<lparr> logId = id1, logHabitId = hid,
             dateKey = (case dk of Some x \<Rightarrow> x | None \<Rightarrow> getTodayDateKey c),
             completedAt = now c \<rparr>]"
  by (simp add: toggleHabit_def Let_def findIndex_none [OF absent] loadHabits_def)

lemma toggle_native_once:
  assumes absent: "filter (\<lambda>l. logHabitId l = hid
            \<and> dateKey l = (case dk of Some x \<Rightarrow> x | None \<Rightarrow> getTodayDateKey c)) (logsTable t) = []"
    and fresh: "id1 \<notin> set (map logId (logsTable t))"
  shows "toggleHabit c False id1 hid dk (st, Inr t)
       = (loadHabits c False st (Inr (t \<lparr> logsTable := logsTable t @ [\<lparr> logId = id1, logHabitId = hid,
             dateKey = (case dk of Some x \<Rightarrow> x | None \<Rightarrow> getTodayDateKey c),
             completedAt = now c \<rparr>] \<rparr>)),
          Inr (t \<lparr> logsTable := logsTable t @ [\<lparr> logId = id1, logHabitId = hid,
             dateKey = (case dk of Some x \<Rightarrow> x | None \<Rightarrow> getTodayDateKey c),
             completedAt = now c \<rparr>] \<rparr>))"
  using fresh
  by (simp add: toggleHabit_def Let_def absent insertLog_def)

lemma filter_fresh_id: "i \<notin> set (map logId xs) \<Longrightarrow> filter (\<lambda>l. logId l \<noteq> i) xs = xs"
  by (induction xs) auto

lemma toggle_native_twice:
  assumes absent: "filter (\<lambda>l. logHabitId l = hid
            \<and> dateKey l = (case dk of Some x \<Rightarrow> x | None \<Rightarrow> getTodayDateKey c)) (logsTable t) = []"
    and fresh: "id1 \<notin> set (map logId (logsTable t))"
  shows "toggleHabit c False id2 hid dk (toggleHabit c False id1 hid dk (st, Inr t))
       = (st \<lparr> habits := nativeHabitsWithStatus (getTodayDateKey c) t,
               isLoading := False, error := None, version := version st + 2 \<rparr>, Inr t)"
  unfolding toggle_native_once [OF absent fresh]
  by (simp add: toggleHabit_def Let_def loadHabits_def absent filter_fresh_id [OF fresh])

lemma toggle_native_unavailable:
  "toggleHabit c False id1 hid dk (st, Inl e) = (st \<lparr> error := Some (message e) \<rparr>, Inl e)"
  by (simp add: toggleHabit_def Let_def)

lemma details_cong:
  assumes "storedLogs isWeb st' db' = storedLogs isWeb st db"
    and "habits st' = habits st"
    and "isl db' = isl db"
  shows "getHabitDetails c isWeb st' db' hid = getHabitDetails c isWeb st db hid"
  using assms
  by (cases db; cases db')
     (auto simp add: getHabitDetails_def selectLogs_def storedLogs_def)

lemma details_fields_cong:
  assumes "storedLogs isWeb st' db' = storedLogs isWeb st db"
    and "isl db' = isl db"
  shows "logs (projr (getHabitDetails c isWeb st' db' hid))
           = logs (projr (getHabitDetails c isWeb st db hid))
       \<and> currentStreak (projr (getHabitDetails c isWeb st' db' hid))
           = currentStreak (projr (getHabitDetails c isWeb st db hid))
       \<and> totalCompletions (projr (getHabitDetails c isWeb st' db' hid))
           = totalCompletions (projr (getHabitDetails c isWeb st db hid))"
  using assms
  by (cases db; cases db')
     (auto simp add: getHabitDetails_def selectLogs_def storedLogs_def)

lemma screenStreaks_cong:
  assumes "getHabitDetails c isWeb st' db' hid = getHabitDetails c isWeb st db hid"
    and "habits st' = habits st"
  shows "screenStreaks c isWeb st' db' hid = screenStreaks c isWeb st db hid"
  using assms by (simp add: screenStreaks_def)

lemma not_logged_iff:
  "k \<notin> logDays isWeb st db hid
     \<longleftrightarrow> filter (\<lambda>l. logHabitId l = hid \<and> dateKey l = k) (storedLogs isWeb st db) = []"
  by (auto simp add: logDays_def filter_empty_conv)

lemma toggle_native_clash:
  assumes absent: "filter (\<lambda>l. logHabitId l = hid
            \<and> dateKey l = (case dk of Some x \<Rightarrow> x | None \<Rightarrow> getTodayDateKey c)) (logsTable t) = []"
    and clash: "ida \<in> set (map logId (logsTable t))"
  shows "snd (toggleHabit c False ida hid dk (st, Inr t)) = Inr t"
  using clash by (simp add: toggleHabit_def Let_def absent insertLog_def)

text \<open>
  C9, as stated: toggling a day on and then off returns every derived statistic to its
  value before. The statistics that read the habit (the consistency score, and the
  current and longest streak of the detail screen) look it up in the habits of the
  store, and every toggle reloads them. On the native platform, before the habits have
  been loaded (the home screen toggles without loading), the store holds no habit: for
  a negative habit created on day 7 with a lapse on day 8, toggling day 9 on and off
  restores the logs, and takes the consistency score from 3 to 67 and the streaks of the
  screen from 0 and 0 to 1 and 1.
\<close>

theorem toggle_before_load_counterexample:
  "9 \<notin> logDays False emptyStore (Inr sampleTables) ''h1''
   \<and> 9 \<in> logDays False
        (fst (toggleHabit (clockAt (noon 9) 0) False ''a'' ''h1'' None
                (emptyStore, Inr sampleTables)))
        (snd (toggleHabit (clockAt (noon 9) 0) False ''a'' ''h1'' None
                (emptyStore, Inr sampleTables))) ''h1''
   \<and> storedLogs False
        (fst (toggleHabit (clockAt (noon 9) 0) False ''b'' ''h1'' None
               (toggleHabit (clockAt (noon 9) 0) False ''a'' ''h1'' None
                  (emptyStore, Inr sampleTables))))
        (snd (toggleHabit (clockAt (noon 9) 0) False ''b'' ''h1'' None
               (toggleHabit (clockAt (noon 9) 0) False ''a'' ''h1'' None
                  (emptyStore, Inr sampleTables))))
      = storedLogs False emptyStore (Inr sampleTables)
   \<and> consistencyScore (projr (getHabitDetails (clockAt (noon 9) 0) False emptyStore
        (Inr sampleTables) ''h1'')) = 3
   \<and> consistencyScore (projr (getHabitDetails (clockAt (noon 9) 0) False
        (fst (toggleHabit (clockAt (noon 9) 0) False ''b'' ''h1'' None
               (toggleHabit (clockAt (noon 9) 0) False ''a'' ''h1'' None
                  (emptyStore, Inr sampleTables))))
        (snd (toggleHabit (clockAt (noon 9) 0) False ''b'' ''h1'' None
               (toggleHabit (clockAt (noon 9) 0) False ''a'' ''h1'' None
                  (emptyStore, Inr sampleTables)))) ''h1'')) = 67
   \<and> screenStreaks (clockAt (noon 9) 0) False emptyStore (Inr sampleTables) ''h1'' = (0, 0)
   \<and> screenStreaks (clockAt (noon 9) 0) False
        (fst (toggleHabit (clockAt (noon 9) 0) False ''b'' ''h1'' None
               (toggleHabit (clockAt (noon 9) 0) False ''a'' ''h1'' None
                  (emptyStore, Inr sampleTables))))
        (snd (toggleHabit (clockAt (noon 9) 0) False ''b'' ''h1'' None
               (toggleHabit (clockAt (noon 9) 0) False ''a'' ''h1'' None
                  (emptyStore, Inr sampleTables)))) ''h1'' = (1, 1)"
  by code_simp

text \<open>
  C9, amended: toggling a day on and then off (the day has no log of the habit before,
  and has one after the first toggle) leaves the stored logs exactly as they were, and
  with them the logged days of every habit, the sparkline rows, and the logs, the
  current streak and the total completions of the details of every habit. The habits of
  the store are afterwards the loaded ones; if they were loaded before, the details as a
  whole (with the consistency score) and the current and longest streak of the detail
  screen are as before too.
\<close>

theorem toggle_on_off_restores:
  assumes k: "k = (case dk of Some x \<Rightarrow> x | None \<Rightarrow> getTodayDateKey c)"
    and off: "k \<notin> logDays isWeb st db hid"
    and s1: "s1 = toggleHabit c isWeb ida hid dk (st, db)"
    and on: "k \<in> logDays isWeb (fst s1) (snd s1) hid"
    and s2: "s2 = toggleHabit c isWeb idb hid dk s1"
  shows "storedLogs isWeb (fst s2) (snd s2) = storedLogs isWeb st db
       \<and> logDays isWeb (fst s2) (snd s2) h = logDays isWeb st db h
       \<and> getHabitsWithSparkline c isWeb (fst s2) (snd s2) = getHabitsWithSparkline c isWeb st db
       \<and> logs (projr (getHabitDetails c isWeb (fst s2) (snd s2) h))
           = logs (projr (getHabitDetails c isWeb st db h))
       \<and> currentStreak (projr (getHabitDetails c isWeb (fst s2) (snd s2) h))
           = currentStreak (projr (getHabitDetails c isWeb st db h))
       \<and> totalCompletions (projr (getHabitDetails c isWeb (fst s2) (snd s2) h))
           = totalCompletions (projr (getHabitDetails c isWeb st db h))
       \<and> habits (fst s2) = habits (loadHabits c isWeb st db)
       \<and> (habits st = habits (loadHabits c isWeb st db)
            \<longrightarrow> getHabitDetails c isWeb (fst s2) (snd s2) h = getHabitDetails c isWeb st db h
              \<and> screenStreaks c isWeb (fst s2) (snd s2) h = screenStreaks c isWeb st db h)
       \<and> logDays isWeb (fst s1) (snd s1) hid = insert k (logDays isWeb st db hid)"
proof -
  have absent: "filter (\<lambda>l. logHabitId l = hid
            \<and> dateKey l = (case dk of Some x \<Rightarrow> x | None \<Rightarrow> getTodayDateKey c))
          (storedLogs isWeb st db) = []"
    using off not_logged_iff [of k isWeb st db hid] k by simp
  have logs_eq: "storedLogs isWeb (fst s2) (snd s2) = storedLogs isWeb st db"
    and spark: "getHabitsWithSparkline c isWeb (fst s2) (snd s2)
              = getHabitsWithSparkline c isWeb st db"
    and hab: "habits (fst s2) = habits (loadHabits c isWeb st db)"
    and avail: "isl (snd s2) = isl db"
    and one_day: "logDays isWeb (fst s1) (snd s1) hid = insert k (logDays isWeb st db hid)"
  proof -
    consider (web) "isWeb" | (native) t where "\<not> isWeb" "db = Inr t"
      | (down) e where "\<not> isWeb" "db = Inl e"
      by (cases db) auto
    then have "storedLogs isWeb (fst s2) (snd s2) = storedLogs isWeb st db
       \<and> getHabitsWithSparkline c isWeb (fst s2) (snd s2) = getHabitsWithSparkline c isWeb st db
       \<and> habits (fst s2) = habits (loadHabits c isWeb st db)
       \<and> isl (snd s2) = isl db
       \<and> logDays isWeb (fst s1) (snd s1) hid = insert k (logDays isWeb st db hid)"
    proof cases
      case web
      have a: "filter (\<lambda>l. logHabitId l = hid
            \<and> dateKey l = (case dk of Some x \<Rightarrow> x | None \<Rightarrow> getTodayDateKey c)) (webLogs st) = []"
        using absent web by (simp add: storedLogs_def)
      have two: "s2 = (st \<lparr> habits := webHabitsWithStatus (getTodayDateKey c) (webHabits st) (webLogs st),
               isLoading := False, error := None, version := version st + 2 \<rparr>, db)"
        using toggle_web_twice [OF a, where ?id2.0 = idb and ?id1.0 = ida and db = db] web s1 s2 by simp
      have one: "webLogs (fst s1) = webLogs st @ [\<lparr> logId = ida, logHabitId = hid,
             dateKey = (case dk of Some x \<Rightarrow> x | None \<Rightarrow> getTodayDateKey c),
             completedAt = now c \<rparr>]"
        using toggle_web_once [OF a, where ?id1.0 = ida and db = db] web s1 by simp
      show ?thesis
        using web one k
        by (simp add: two storedLogs_def getHabitsWithSparkline_def loadHabits_def logDays_def)
    next
      case native
      have a: "filter (\<lambda>l. logHabitId l = hid
            \<and> dateKey l = (case dk of Some x \<Rightarrow> x | None \<Rightarrow> getTodayDateKey c)) (logsTable t) = []"
        using absent native by (simp add: storedLogs_def)
      have f: "ida \<notin> set (map logId (logsTable t))"
      proof
        assume "ida \<in> set (map logId (logsTable t))"
        then have "snd s1 = Inr t"
          using toggle_native_clash [OF a, of ida st] native s1 by simp
        then have "logDays isWeb (fst s1) (snd s1) hid = logDays isWeb st db hid"
          using native by (simp add: logDays_def storedLogs_def)
        then show False using on off by simp
      qed
      have two: "s2 = (st \<lparr> habits := nativeHabitsWithStatus (getTodayDateKey c) t,
               isLoading := False, error := None, version := version st + 2 \<rparr>, Inr t)"
        using toggle_native_twice [OF a f, where ?id2.0 = idb and st = st] native s1 s2 by simp
      have one: "s1 = (loadHabits c False st (Inr (t \<lparr> logsTable := logsTable t @ [\<lparr> logId = ida, logHabitId = hid,
             dateKey = (case dk of Some x \<Rightarrow> x | None \<Rightarrow> getTodayDateKey c),
             completedAt = now c \<rparr>] \<rparr>)),
          Inr (t \<lparr> logsTable := logsTable t @ [\<lparr> logId = ida, logHabitId = hid,
             dateKey = (case dk of Some x \<Rightarrow> x | None \<Rightarrow> getTodayDateKey c),
             completedAt = now c \<rparr>] \<rparr>))"
        using toggle_native_once [OF a f, where st = st] native s1 by simp
      show ?thesis
        using native k
        by (simp add: two one storedLogs_def getHabitsWithSparkline_def loadHabits_def logDays_def)
    next
      case down
      have "s1 = (st \<lparr> error := Some (message e) \<rparr>, Inl e)"
        using down s1 by (simp add: toggle_native_unavailable)
      then have "logDays isWeb (fst s1) (snd s1) hid = {}"
        using down by (simp add: logDays_def storedLogs_def)
      then show ?thesis using on by simp
    qed
    then show "storedLogs isWeb (fst s2) (snd s2) = storedLogs isWeb st db"
      and "getHabitsWithSparkline c isWeb (fst s2) (snd s2) = getHabitsWithSparkline c isWeb st db"
      and "habits (fst s2) = habits (loadHabits c isWeb st db)"
      and "isl (snd s2) = isl db"
      and "logDays isWeb (fst s1) (snd s1) hid = insert k (logDays isWeb st db hid)"
      by simp_all
  qed
  have days: "logDays isWeb (fst s2) (snd s2) h = logDays isWeb st db h"
    by (simp add: logDays_def logs_eq)
  have fields: "logs (projr (getHabitDetails c isWeb (fst s2) (snd s2) h))
           = logs (projr (getHabitDetails c isWeb st db h))
       \<and> currentStreak (projr (getHabitDetails c isWeb (fst s2) (snd s2) h))
           = currentStreak (projr (getHabitDetails c isWeb st db h))
       \<and> totalCompletions (projr (getHabitDetails c isWeb (fst s2) (snd s2) h))
           = totalCompletions (projr (getHabitDetails c isWeb st db h))"
    by (rule details_fields_cong [OF logs_eq avail])
  have det: "getHabitDetails c isWeb (fst s2) (snd s2) h = getHabitDetails c isWeb st db h
           \<and> screenStreaks c isWeb (fst s2) (snd s2) h = screenStreaks c isWeb st db h"
    if "habits st = habits (loadHabits c isWeb st db)"
  proof -
    have h: "habits (fst s2) = habits st" using hab that by simp
    have d: "getHabitDetails c isWeb (fst s2) (snd s2) h = getHabitDetails c isWeb st db h"
      by (rule details_cong [OF logs_eq h avail])
    show ?thesis
      using d screenStreaks_cong [OF d h] by simp
  qed
  show ?thesis
    using logs_eq days spark fields hab det one_day by blast
qed

theorem toggle_on_off_restores_witness:
  "storedLogs True
       (fst (toggleHabit (clockAt (noon 9) 0) True ''b'' ''h1'' None
              (toggleHabit (clockAt (noon 9) 0) True ''a'' ''h1'' None (sampleStore, unavailable))))
       (snd (toggleHabit (clockAt (noon 9) 0) True ''b'' ''h1'' None
              (toggleHabit (clockAt (noon 9) 0) True ''a'' ''h1'' None (sampleStore, unavailable))))
     = [logOn 8]
   \<and> getHabitDetails (clockAt (noon 9) 0) True
       (fst (toggleHabit (clockAt (noon 9) 0) True ''b'' ''h1'' None
              (toggleHabit (clockAt (noon 9) 0) True ''a'' ''h1'' None (sampleStore, unavailable))))
       (snd (toggleHabit (clockAt (noon 9) 0) True ''b'' ''h1'' None
              (toggleHabit (clockAt (noon 9) 0) True ''a'' ''h1'' None (sampleStore, unavailable))))
       ''h1''
     = getHabitDetails (clockAt (noon 9) 0) True sampleStore unavailable ''h1''
   \<and> logDays True
       (fst (toggleHabit (clockAt (noon 9) 0) True ''a'' ''h1'' None (sampleStore, unavailable)))
       (snd (toggleHabit (clockAt (noon 9) 0) True ''a'' ''h1'' None (sampleStore, unavailable)))
       ''h1''
     = {8, 9}"
proof -
  let ?c = "clockAt (noon 9) 0"
  let ?s1 = "toggleHabit ?c True ''a'' ''h1'' None (sampleStore, unavailable)"
  have today: "getTodayDateKey ?c = 9"
    by (simp add: getTodayDateKey_def getDateKey_def now_clockAt localDay_clockAt noon_def
          msPerDay_def)
  have k: "(9 :: int) = (case None of Some x \<Rightarrow> x | None \<Rightarrow> getTodayDateKey ?c)"
    by (simp add: today)
  have stored: "storedLogs True sampleStore unavailable = [logOn 8]"
    by (simp add: storedLogs_def sampleStore_def)
  have days: "logDays True sampleStore unavailable ''h1'' = {8}"
    by (simp add: logDays_def stored logOn_def)
  have off: "9 \<notin> logDays True sampleStore unavailable ''h1''"
    by (simp add: days)
  have "webLogs (fst ?s1) = webLogs sampleStore @ [\<lparr> logId = ''a'', logHabitId = ''h1'',
             dateKey = (case None of Some x \<Rightarrow> x | None \<Rightarrow> getTodayDateKey ?c),
             completedAt = now ?c \<rparr>]"
    by (rule toggle_web_once) (simp add: today sampleStore_def logOn_def)
  then have on: "9 \<in> logDays True (fst ?s1) (snd ?s1) ''h1''"
    by (simp add: logDays_def storedLogs_def today)
  have loaded: "habits sampleStore = habits (loadHabits ?c True sampleStore unavailable)"
    by (simp add: loadHabits_def sampleStore_def webHabitsWithStatus_def today habitOf_def
          logOn_def)
  show ?thesis
    using toggle_on_off_restores [OF k off refl on refl, where h = "''h1''" and idb = "''b''"]
      loaded
    by (simp add: stored days insert_commute)
qed

end
